theory Spec2Isabelle
  imports Main
begin

section \<open>The data of bot.py\<close>

text \<open>
  The bot is a set of coroutines over a chat-platform client. Everything the handlers do
  beyond computing is made explicit here: the remote calls they await, the log lines they
  write and the calls of \<open>relay\<close> are recorded, in order, in a trace; an exception is a
  value of type \<open>exn\<close>, and a coroutine returns \<open>exn + 'a\<close> (\<open>Inl\<close> the exception that
  left it) together with the extended trace.
\<close>

text \<open>
  The exceptions the handlers can meet, by the classes the source's \<open>except\<close> clauses
  tell apart: \<open>NotFound\<close> and \<open>Forbidden\<close> are the two subclasses of the library's
  \<open>HTTPException\<close> that the source names; \<open>HTTPException\<close> stands for an instance of
  that class that is neither; \<open>OtherException\<close> stands for an \<open>Exception\<close> outside that
  hierarchy. All four are instances of \<open>Exception\<close>.
\<close>

datatype exn = NotFound | Forbidden | HTTPException | OtherException

fun is_HTTPException :: "exn \<Rightarrow> bool" where
  "is_HTTPException NotFound = True"
| "is_HTTPException Forbidden = True"
| "is_HTTPException HTTPException = True"
| "is_HTTPException OtherException = False"

datatype channel_kind =
  TextChannel | VoiceChannel | StageChannel | CategoryChannel | ForumChannel
  | Thread | DMChannel | GroupChannel

record channel =
  ch_id :: int
  ch_name :: string
  ch_kind :: channel_kind

text \<open>
  A guild with the two caches the source reads: \<open>guild.get_member\<close> (the name of the
  cached member, if any) and \<open>guild.get_channel\<close>.
\<close>

record guild =
  g_id :: int
  g_name :: string
  g_get_member :: "int \<Rightarrow> string option"
  g_get_channel :: "int \<Rightarrow> channel option"

text \<open>
  A member snapshot: its name, its guild, and what \<open>ch.permissions_for(member).view_channel\<close>
  gives for the channel with a given id: a boolean, or the exception the computation raises.
\<close>

record member =
  m_name :: string
  m_guild :: guild
  m_view_channel :: "int \<Rightarrow> exn + bool"

record voice_state =
  vs_channel :: "channel option"

record datetime =
  year :: nat
  month :: nat
  day :: nat
  hour :: nat
  minute :: nat
  second :: nat

datatype log_level = ERROR | WARNING

text \<open>
  The trace: \<open>RelayCall text\<close> marks the entry of \<open>relay(text)\<close>; \<open>FetchChannel\<close>,
  \<open>FetchMember\<close> (guild id, user id) and \<open>Send\<close> (channel id, text) are the awaited
  remote calls, recorded whether they succeed or raise; \<open>Log\<close> is a line written to the
  log, with its format string and its argument.
\<close>

datatype action =
    RelayCall string
  | FetchChannel int
  | FetchMember int int
  | Send int string
  | Log log_level string int

type_synonym trace = "action list"

text \<open>
  The module's globals and the client. The three watch sets are Python sets of integers;
  the one the source iterates over, \<open>WATCH_TEXT_CHANNEL_IDS\<close>, is the list of its elements
  in iteration order. The client's channel cache is read by the source
  (\<open>client.get_channel\<close>) and never written by it: \<open>relay\<close> binds the channel it
  fetches to a local variable, and \<open>client.fetch_channel\<close> is the library's plain API
  call, which returns the channel it retrieved and leaves the cache alone. So the cache is
  a fixed part of the environment of a handler. The answer of a remote call may depend on
  everything that happened before it, so each remote call takes the trace so far; so does
  the clock.
\<close>

record env =
  RELAY_CHANNEL_ID :: int
  MY_USER_ID :: int
  WATCH_GUILD_IDS :: "int set"
  WATCH_TEXT_CHANNEL_IDS :: "int list"
  WATCH_VOICE_CHANNEL_IDS :: "int set"
  client_get_channel :: "int \<Rightarrow> channel option"
  client_fetch_channel :: "trace \<Rightarrow> int \<Rightarrow> exn + channel"
  guild_fetch_member :: "trace \<Rightarrow> int \<Rightarrow> int \<Rightarrow> exn + unit"
  channel_send :: "trace \<Rightarrow> channel \<Rightarrow> string \<Rightarrow> exn + unit"
  clock_utc :: "trace \<Rightarrow> datetime"

section \<open>Helpers\<close>

subsection \<open>\<open>now_utc_str\<close>\<close>

definition digit_char :: "nat \<Rightarrow> char" where
  "digit_char n = ''0123456789'' ! (n mod 10)"

definition zero_pad2 :: "nat \<Rightarrow> string" where
  "zero_pad2 n = [digit_char (n div 10), digit_char n]"

definition zero_pad4 :: "nat \<Rightarrow> string" where
  "zero_pad4 n = [digit_char (n div 1000), digit_char (n div 100), digit_char (n div 10), digit_char n]"

text \<open>
  The directives of \<open>strftime\<close> that the source uses. A datetime has a year from 1 to 9999
  and two-digit fields; \<open>%Y\<close> is the year in four digits (for a year from 1000 on, its
  decimal numeral), the others are zero-padded to two digits.
\<close>

definition directive :: "char \<Rightarrow> datetime \<Rightarrow> string" where
  "directive c d =
     (if c = CHR ''Y'' then zero_pad4 (year d)
      else if c = CHR ''m'' then zero_pad2 (month d)
      else if c = CHR ''d'' then zero_pad2 (day d)
      else if c = CHR ''H'' then zero_pad2 (hour d)
      else if c = CHR ''M'' then zero_pad2 (minute d)
      else if c = CHR ''S'' then zero_pad2 (second d)
      else [CHR ''%'', c])"

fun strftime :: "string \<Rightarrow> datetime \<Rightarrow> string" where
  "strftime [] d = []"
| "strftime [c] d = [c]"
| "strftime (c # x # cs) d =
     (if c = CHR ''%'' then directive x d @ strftime cs d else c # strftime (x # cs) d)"

definition now_utc_str :: "datetime \<Rightarrow> string" where
  "now_utc_str now = strftime ''%Y-%m-%d %H:%M:%S UTC'' now"

definition valid_datetime :: "datetime \<Rightarrow> bool" where
  "valid_datetime d \<longleftrightarrow>
     1000 \<le> year d \<and> year d \<le> 9999 \<and> 1 \<le> month d \<and> month d \<le> 12 \<and>
     1 \<le> day d \<and> day d \<le> 31 \<and> hour d < 24 \<and> minute d < 60 \<and> second d < 60"

subsection \<open>\<open>relay\<close>\<close>

text \<open>
  The second half of \<open>relay\<close>, from the \<open>isinstance\<close> test on: the send is attempted on a
  text channel only; \<open>Forbidden\<close> is the one exception caught there.
\<close>

definition relay_send :: "env \<Rightarrow> channel \<Rightarrow> string \<Rightarrow> trace \<Rightarrow> (exn + unit) \<times> trace" where
  "relay_send w ch text t =
     (if ch_kind ch = TextChannel then
        (case channel_send w t ch text of
           Inr u \<Rightarrow> (Inr (), t @ [Send (ch_id ch) text])
         | Inl e \<Rightarrow>
             if e = Forbidden
             then (Inr (), t @ [Send (ch_id ch) text,
                     Log WARNING ''No permission to send in relay channel %s'' (ch_id ch)])
             else (Inl e, t @ [Send (ch_id ch) text]))
      else (Inr (), t @ [Log ERROR ''Relay channel wrong type (id=%s)'' (RELAY_CHANNEL_ID w)]))"

text \<open>
  The first half of \<open>relay\<close>: the channel from the cache, or else from one remote fetch;
  a failed fetch is logged and gives no channel.
\<close>

definition relay_resolve :: "env \<Rightarrow> trace \<Rightarrow> channel option \<times> trace" where
  "relay_resolve w t =
     (case client_get_channel w (RELAY_CHANNEL_ID w) of
        Some ch \<Rightarrow> (Some ch, t)
      | None \<Rightarrow>
          (case client_fetch_channel w t (RELAY_CHANNEL_ID w) of
             Inl e \<Rightarrow>
               (None, t @ [FetchChannel (RELAY_CHANNEL_ID w),
                  Log ERROR ''Relay channel not found (id=%s)'' (RELAY_CHANNEL_ID w)])
           | Inr ch \<Rightarrow> (Some ch, t @ [FetchChannel (RELAY_CHANNEL_ID w)])))"

definition relay :: "env \<Rightarrow> string \<Rightarrow> trace \<Rightarrow> (exn + unit) \<times> trace" where
  "relay w text t =
     (case relay_resolve w (t @ [RelayCall text]) of
        (None, t') \<Rightarrow> (Inr (), t')
      | (Some ch, t') \<Rightarrow> relay_send w ch text t')"

subsection \<open>\<open>guild_is_watched\<close>\<close>

definition guild_is_watched :: "env \<Rightarrow> guild \<Rightarrow> trace \<Rightarrow> (exn + bool) \<times> trace" where
  "guild_is_watched w g t =
     (if WATCH_GUILD_IDS w \<noteq> {} \<and> g_id g \<notin> WATCH_GUILD_IDS w then (Inr False, t)
      else if g_get_member g (MY_USER_ID w) \<noteq> None then (Inr True, t)
      else
        (case guild_fetch_member w t (g_id g) (MY_USER_ID w) of
           Inr u \<Rightarrow> (Inr True, t @ [FetchMember (g_id g) (MY_USER_ID w)])
         | Inl e \<Rightarrow>
             if e = NotFound \<or> e = Forbidden \<or> is_HTTPException e
             then (Inr False, t @ [FetchMember (g_id g) (MY_USER_ID w)])
             else (Inl e, t @ [FetchMember (g_id g) (MY_USER_ID w)])))"

section \<open>The event handlers\<close>

subsection \<open>\<open>on_member_join\<close>\<close>

definition join_text :: "member \<Rightarrow> datetime \<Rightarrow> string" where
  "join_text m now =
     m_name m @ '' joined : '' @ g_name (m_guild m) @ '' at '' @ now_utc_str now"

definition on_member_join :: "env \<Rightarrow> member \<Rightarrow> trace \<Rightarrow> (exn + unit) \<times> trace" where
  "on_member_join w m t =
     (case guild_is_watched w (m_guild m) t of
        (Inl e, t') \<Rightarrow> (Inl e, t')
      | (Inr watched, t') \<Rightarrow>
          if \<not> watched then (Inr (), t')
          else relay w (join_text m (clock_utc w t')) t')"

subsection \<open>\<open>on_member_update\<close>\<close>

definition permissions_for_view_channel :: "channel \<Rightarrow> member \<Rightarrow> exn + bool" where
  "permissions_for_view_channel ch m = m_view_channel m (ch_id ch)"

definition gained_text :: "member \<Rightarrow> channel \<Rightarrow> datetime \<Rightarrow> string" where
  "gained_text after ch now =
     m_name after @ '' gained access to : #'' @ ch_name ch @ '' in '' @
     g_name (m_guild after) @ '' at '' @ now_utc_str now"

text \<open>
  One pass through the body of the \<open>for\<close> loop, for the channel id \<open>c\<close>. \<open>Inr ()\<close> is
  both \<open>continue\<close> and the normal end of the body; \<open>Inl e\<close> is an exception that leaves
  the loop.
\<close>

definition member_update_body ::
  "env \<Rightarrow> member \<Rightarrow> member \<Rightarrow> int \<Rightarrow> trace \<Rightarrow> (exn + unit) \<times> trace" where
  "member_update_body w before after c t =
     (case g_get_channel (m_guild after) c of
        None \<Rightarrow> (Inr (), t)
      | Some ch \<Rightarrow>
          if \<not> (ch_kind ch = TextChannel \<or> ch_kind ch = ForumChannel \<or> ch_kind ch = CategoryChannel)
          then (Inr (), t)
          else
            (case permissions_for_view_channel ch before of
               Inl e \<Rightarrow> (Inr (), t)
             | Inr before_can \<Rightarrow>
                 (case permissions_for_view_channel ch after of
                    Inl e \<Rightarrow> (Inr (), t)
                  | Inr after_can \<Rightarrow>
                      if \<not> before_can \<and> after_can
                      then relay w (gained_text after ch (clock_utc w t)) t
                      else (Inr (), t))))"

fun member_update_loop ::
  "env \<Rightarrow> member \<Rightarrow> member \<Rightarrow> int list \<Rightarrow> trace \<Rightarrow> (exn + unit) \<times> trace" where
  "member_update_loop w before after [] t = (Inr (), t)"
| "member_update_loop w before after (c # cs) t =
     (case member_update_body w before after c t of
        (Inl e, t') \<Rightarrow> (Inl e, t')
      | (Inr u, t') \<Rightarrow> member_update_loop w before after cs t')"

definition on_member_update :: "env \<Rightarrow> member \<Rightarrow> member \<Rightarrow> trace \<Rightarrow> (exn + unit) \<times> trace" where
  "on_member_update w before after t =
     (if WATCH_TEXT_CHANNEL_IDS w = [] then (Inr (), t)
      else
        (case guild_is_watched w (m_guild after) t of
           (Inl e, t') \<Rightarrow> (Inl e, t')
         | (Inr watched, t') \<Rightarrow>
             if \<not> watched then (Inr (), t')
             else member_update_loop w before after (WATCH_TEXT_CHANNEL_IDS w) t'))"

subsection \<open>\<open>on_voice_state_update\<close>\<close>

definition in_watch :: "env \<Rightarrow> channel option \<Rightarrow> bool" where
  "in_watch w vch = (case vch of None \<Rightarrow> False | Some c \<Rightarrow> ch_id c \<in> WATCH_VOICE_CHANNEL_IDS w)"

text \<open>
  \<open>after.channel != before.channel\<close>: the library compares two channel objects by their
  ids; \<open>None\<close> differs from every channel.
\<close>

definition channel_ne :: "channel option \<Rightarrow> channel option \<Rightarrow> bool" where
  "channel_ne a b =
     (case a of
        None \<Rightarrow> b \<noteq> None
      | Some x \<Rightarrow> (case b of None \<Rightarrow> True | Some y \<Rightarrow> ch_id x \<noteq> ch_id y))"

text \<open>The name of a voice location, where the source reads \<open>.channel.name\<close>.\<close>

definition vch_name :: "channel option \<Rightarrow> exn + string" where
  "vch_name vch = (case vch of None \<Rightarrow> Inl OtherException | Some c \<Rightarrow> Inr (ch_name c))"

definition joined_voice_text :: "member \<Rightarrow> string \<Rightarrow> datetime \<Rightarrow> string" where
  "joined_voice_text m a now =
     m_name m @ '' joined voice : #'' @ a @ '' in '' @ g_name (m_guild m) @
     '' at '' @ now_utc_str now"

definition left_voice_text :: "member \<Rightarrow> string \<Rightarrow> datetime \<Rightarrow> string" where
  "left_voice_text m b now =
     m_name m @ '' left voice : #'' @ b @ '' in '' @ g_name (m_guild m) @
     '' at '' @ now_utc_str now"

text \<open>The arrow of the third message is U+2192, three bytes in UTF-8.\<close>

definition moved_voice_text :: "member \<Rightarrow> string \<Rightarrow> string \<Rightarrow> datetime \<Rightarrow> string" where
  "moved_voice_text m b a now =
     m_name m @ '' moved voice : #'' @ b @ '' '' @ [CHR 0xE2, CHR 0x86, CHR 0x92] @ '' #'' @ a @
     '' in '' @ g_name (m_guild m) @ '' at '' @ now_utc_str now"

definition on_voice_state_update ::
  "env \<Rightarrow> member \<Rightarrow> voice_state \<Rightarrow> voice_state \<Rightarrow> trace \<Rightarrow> (exn + unit) \<times> trace" where
  "on_voice_state_update w m before after t =
     (if WATCH_VOICE_CHANNEL_IDS w = {} then (Inr (), t)
      else
        (case guild_is_watched w (m_guild m) t of
           (Inl e, t') \<Rightarrow> (Inl e, t')
         | (Inr watched, t') \<Rightarrow>
             if \<not> watched then (Inr (), t')
             else if channel_ne (vs_channel after) (vs_channel before) then
               (if in_watch w (vs_channel after) \<and> \<not> in_watch w (vs_channel before) then
                  (case vch_name (vs_channel after) of
                     Inl e \<Rightarrow> (Inl e, t')
                   | Inr a \<Rightarrow> relay w (joined_voice_text m a (clock_utc w t')) t')
                else if in_watch w (vs_channel before) \<and> \<not> in_watch w (vs_channel after) then
                  (case vch_name (vs_channel before) of
                     Inl e \<Rightarrow> (Inl e, t')
                   | Inr b \<Rightarrow> relay w (left_voice_text m b (clock_utc w t')) t')
                else if in_watch w (vs_channel before) \<and> in_watch w (vs_channel after) then
                  (case vch_name (vs_channel before) of
                     Inl e \<Rightarrow> (Inl e, t')
                   | Inr b \<Rightarrow>
                       (case vch_name (vs_channel after) of
                          Inl e \<Rightarrow> (Inl e, t')
                        | Inr a \<Rightarrow> relay w (moved_voice_text m b a (clock_utc w t')) t'))
                else (Inr (), t'))
             else (Inr (), t')))"

section \<open>Observations on a trace\<close>

fun relay_calls :: "trace \<Rightarrow> string list" where
  "relay_calls [] = []"
| "relay_calls (RelayCall s # t) = s # relay_calls t"
| "relay_calls (a # t) = relay_calls t"

fun sends :: "trace \<Rightarrow> (int \<times> string) list" where
  "sends [] = []"
| "sends (Send c s # t) = (c, s) # sends t"
| "sends (a # t) = sends t"

fun fetches :: "trace \<Rightarrow> action list" where
  "fetches [] = []"
| "fetches (FetchChannel c # t) = FetchChannel c # fetches t"
| "fetches (FetchMember g u # t) = FetchMember g u # fetches t"
| "fetches (a # t) = fetches t"

text \<open>The part of the relay calls of trace \<open>t2\<close> made after the trace \<open>t1\<close> it extends.\<close>

definition new_relay_calls :: "trace \<Rightarrow> trace \<Rightarrow> string list" where
  "new_relay_calls t1 t2 = drop (length (relay_calls t1)) (relay_calls t2)"

section \<open>The rules of the specification, for comparison\<close>

text \<open>
  The classification of a voice update by watch-set membership of its two channels:
  after only is a join, before only a leave, both a move, neither is no outcome; an
  update whose two channels are equal has no outcome.
\<close>

datatype voice_outcome = JoinedVoice | LeftVoice | MovedVoice | NoOutcome

definition spec_voice_outcome :: "bool \<Rightarrow> bool \<Rightarrow> bool \<Rightarrow> voice_outcome" where
  "spec_voice_outcome differ before_watched after_watched =
     (if \<not> differ then NoOutcome
      else case (before_watched, after_watched) of
             (False, True) \<Rightarrow> JoinedVoice
           | (True, False) \<Rightarrow> LeftVoice
           | (True, True) \<Rightarrow> MovedVoice
           | (False, False) \<Rightarrow> NoOutcome)"

definition name_of :: "channel option \<Rightarrow> string" where
  "name_of vch = (case vch of None \<Rightarrow> [] | Some c \<Rightarrow> ch_name c)"

definition voice_message ::
  "voice_outcome \<Rightarrow> member \<Rightarrow> channel option \<Rightarrow> channel option \<Rightarrow> datetime \<Rightarrow> string option" where
  "voice_message out m b a now =
     (case out of
        JoinedVoice \<Rightarrow> Some (joined_voice_text m (name_of a) now)
      | LeftVoice \<Rightarrow> Some (left_voice_text m (name_of b) now)
      | MovedVoice \<Rightarrow> Some (moved_voice_text m (name_of b) (name_of a) now)
      | NoOutcome \<Rightarrow> None)"

text \<open>
  The shape \<open>YYYY-MM-DD HH:MM:SS UTC\<close>: each of the letters Y, M, D, H and S of the
  pattern stands for one decimal digit, every other character for itself.
\<close>

definition is_digit :: "char \<Rightarrow> bool" where
  "is_digit c \<longleftrightarrow> c \<in> set ''0123456789''"

fun matches_format :: "string \<Rightarrow> string \<Rightarrow> bool" where
  "matches_format [] [] = True"
| "matches_format (p # ps) (c # cs) =
     ((if p \<in> set ''YMDHS'' then is_digit c else c = p) \<and> matches_format ps cs)"
| "matches_format [] (c # cs) = False"
| "matches_format (p # ps) [] = False"

text \<open>The number a string of decimal digits denotes.\<close>

definition digit_value :: "char \<Rightarrow> nat" where
  "digit_value c = of_char c - 48"

definition decimal_value :: "string \<Rightarrow> nat" where
  "decimal_value s = foldl (\<lambda>n c. 10 * n + digit_value c) 0 s"

text \<open>
  The channel-access rule: a watched channel id qualifies when it resolves, in the
  community, to a text, forum or category channel that the member could not view before
  the update and can view after it.
\<close>

definition gains_access :: "member \<Rightarrow> member \<Rightarrow> int \<Rightarrow> bool" where
  "gains_access before after c =
     (case g_get_channel (m_guild after) c of
        None \<Rightarrow> False
      | Some ch \<Rightarrow>
          (ch_kind ch = TextChannel \<or> ch_kind ch = ForumChannel \<or> ch_kind ch = CategoryChannel) \<and>
          permissions_for_view_channel ch before = Inr False \<and>
          permissions_for_view_channel ch after = Inr True)"

section \<open>A concrete community\<close>

definition relay_channel :: channel where
  "relay_channel = \<lparr>ch_id = 7, ch_name = ''relay'', ch_kind = TextChannel\<rparr>"

definition general :: channel where
  "general = \<lparr>ch_id = 42, ch_name = ''general'', ch_kind = TextChannel\<rparr>"

definition archive :: channel where
  "archive = \<lparr>ch_id = 41, ch_name = ''archive'', ch_kind = TextChannel\<rparr>"

definition lobby :: channel where
  "lobby = \<lparr>ch_id = 43, ch_name = ''lobby'', ch_kind = TextChannel\<rparr>"

definition voice_lounge :: channel where
  "voice_lounge = \<lparr>ch_id = 99, ch_name = ''voice-lounge'', ch_kind = VoiceChannel\<rparr>"

definition afk :: channel where
  "afk = \<lparr>ch_id = 98, ch_name = ''afk'', ch_kind = VoiceChannel\<rparr>"

text \<open>The operator (id 5) is in the member cache of G, and not in that of H.\<close>

definition guild_G :: guild where
  "guild_G = \<lparr>g_id = 1, g_name = ''G'',
     g_get_member = (\<lambda>u. if u = 5 then Some ''operator'' else None),
     g_get_channel = (\<lambda>c. if c = 42 then Some general else if c = 41 then Some archive
        else if c = 43 then Some lobby else None)\<rparr>"

definition guild_H :: guild where
  "guild_H = \<lparr>g_id = 2, g_name = ''H'',
     g_get_member = (\<lambda>u. None),
     g_get_channel = (\<lambda>c. None)\<rparr>"

text \<open>
  Alice before and after a role change: she gains the view of \<open>#general\<close>; the
  permissions of \<open>#archive\<close> cannot be computed.
\<close>

definition alice_before :: member where
  "alice_before = \<lparr>m_name = ''alice'', m_guild = guild_G,
     m_view_channel = (\<lambda>c. if c = 41 then Inl OtherException else Inr False)\<rparr>"

definition alice :: member where
  "alice = \<lparr>m_name = ''alice'', m_guild = guild_G,
     m_view_channel = (\<lambda>c. if c = 41 then Inl OtherException else Inr True)\<rparr>"

definition bob :: member where
  "bob = \<lparr>m_name = ''bob'', m_guild = guild_H, m_view_channel = (\<lambda>c. Inr True)\<rparr>"

definition noon :: datetime where
  "noon = \<lparr>year = 2024, month = 3, day = 9, hour = 12, minute = 5, second = 0\<rparr>"

text \<open>
  The relay channel is cached and every send succeeds; every remote lookup answers
  not-found.
\<close>

definition example_env :: env where
  "example_env = \<lparr>RELAY_CHANNEL_ID = 7, MY_USER_ID = 5, WATCH_GUILD_IDS = {1},
     WATCH_TEXT_CHANNEL_IDS = [41, 42], WATCH_VOICE_CHANNEL_IDS = {99},
     client_get_channel = (\<lambda>c. if c = 7 then Some relay_channel else None),
     client_fetch_channel = (\<lambda>t c. Inl NotFound),
     guild_fetch_member = (\<lambda>t g u. Inl NotFound),
     channel_send = (\<lambda>t ch s. Inr ()),
     clock_utc = (\<lambda>t. noon)\<rparr>"


text \<open>The same, with every send answered by a server error.\<close>

definition failing_send_env :: env where
  "failing_send_env = example_env\<lparr>channel_send := (\<lambda>t ch s. Inl HTTPException)\<rparr>"

text \<open>The same, with the relay channel out of the cache and every fetch of it successful.\<close>

definition uncached_env :: env where
  "uncached_env = example_env\<lparr>client_get_channel := (\<lambda>c. None),
     client_fetch_channel := (\<lambda>t c. Inr relay_channel)\<rparr>"

text \<open>The same, with every send answered by permission-denied.\<close>

definition forbidden_send_env :: env where
  "forbidden_send_env = example_env\<lparr>channel_send := (\<lambda>t ch s. Inl Forbidden)\<rparr>"

text \<open>The same, with the relay channel out of the cache and every fetch of it failing.\<close>

definition unreachable_env :: env where
  "unreachable_env = example_env\<lparr>client_get_channel := (\<lambda>c. None)\<rparr>"

text \<open>The same, with a voice channel under the relay channel's id.\<close>

definition wrong_type_env :: env where
  "wrong_type_env = example_env\<lparr>client_get_channel := (\<lambda>c. Some voice_lounge)\<rparr>"


text \<open>Every send answered by a server error, and two watched text channels.\<close>

definition two_channel_env :: env where
  "two_channel_env = failing_send_env\<lparr>WATCH_TEXT_CHANNEL_IDS := [42, 43]\<rparr>"

section \<open>Properties\<close>

lemma relay_calls_append: "relay_calls (xs @ ys) = relay_calls xs @ relay_calls ys"
  by (induction xs rule: relay_calls.induct) simp_all

lemma sends_append: "sends (xs @ ys) = sends xs @ sends ys"
  by (induction xs rule: sends.induct) simp_all

lemma fetches_append: "fetches (xs @ ys) = fetches xs @ fetches ys"
  by (induction xs rule: fetches.induct) simp_all


lemma guild_is_watched_calls:
  "relay_calls (snd (guild_is_watched w g t)) = relay_calls t \<and>
   sends (snd (guild_is_watched w g t)) = sends t"
  by (simp add: guild_is_watched_def relay_calls_append sends_append split: sum.splits)

lemma relay_calls_relay_send: "relay_calls (snd (relay_send w ch text t)) = relay_calls t"
  by (simp add: relay_send_def relay_calls_append split: sum.splits)

lemma relay_calls_relay: "relay_calls (snd (relay w text t)) = relay_calls t @ [text]"
  by (simp add: relay_def relay_resolve_def relay_calls_relay_send relay_calls_append
      split: option.splits sum.splits)

subsection \<open>The scope filter\<close>

text \<open>
  C5. When the community allowlist is not empty and the community of an event is not in
  it, \<open>guild_is_watched\<close> returns false and leaves the trace as it found it (no remote
  lookup), and each of the three handlers returns with the trace unchanged: no relay, no
  send.
\<close>

theorem allowlist_excludes:
  assumes "WATCH_GUILD_IDS w \<noteq> {}" and "g_id g \<notin> WATCH_GUILD_IDS w"
    and "m_guild m = g" and "m_guild after = g"
  shows "guild_is_watched w g t = (Inr False, t) \<and>
         on_member_join w m t = (Inr (), t) \<and>
         on_member_update w before after t = (Inr (), t) \<and>
         on_voice_state_update w m vb va t = (Inr (), t)"
  using assms
  by (simp add: guild_is_watched_def on_member_join_def on_member_update_def
      on_voice_state_update_def)

theorem allowlist_excludes_witness:
  "WATCH_GUILD_IDS example_env \<noteq> {} \<and> g_id guild_H \<notin> WATCH_GUILD_IDS example_env \<and>
   m_guild bob = guild_H \<and>
   guild_is_watched example_env guild_H [] = (Inr False, []) \<and>
   on_member_join example_env bob [] = (Inr (), []) \<and>
   on_member_update example_env bob bob [] = (Inr (), []) \<and>
   on_voice_state_update example_env bob \<lparr>vs_channel = None\<rparr>
     \<lparr>vs_channel = Some voice_lounge\<rparr> [] = (Inr (), [])"
proof -
  have h1: "WATCH_GUILD_IDS example_env \<noteq> {}" by (simp add: example_env_def)
  have h2: "g_id guild_H \<notin> WATCH_GUILD_IDS example_env"
    by (simp add: example_env_def guild_H_def)
  have h3: "m_guild bob = guild_H" by (simp add: bob_def)
  show ?thesis
    using h1 h2 h3
      allowlist_excludes [OF h1 h2 h3 h3, where t = "[]" and before = bob
        and vb = "\<lparr>vs_channel = None\<rparr>" and va = "\<lparr>vs_channel = Some voice_lounge\<rparr>"]
    by simp
qed




subsection \<open>Empty watch sets\<close>

text \<open>
  C8. With an empty set of watched text channels the member-update handler returns at
  once, the trace unchanged (no lookup, no relay); with an empty set of watched voice
  channels so does the voice-state-update handler; for every event.
\<close>

theorem empty_watch_set_disables:
  "(WATCH_TEXT_CHANNEL_IDS w = [] \<longrightarrow> on_member_update w before after t = (Inr (), t)) \<and>
   (WATCH_VOICE_CHANNEL_IDS w = {} \<longrightarrow> on_voice_state_update w m vb va t = (Inr (), t))"
  by (simp add: on_member_update_def on_voice_state_update_def)

theorem empty_watch_set_disables_witness:
  "WATCH_TEXT_CHANNEL_IDS (example_env\<lparr>WATCH_TEXT_CHANNEL_IDS := []\<rparr>) = [] \<and>
   WATCH_VOICE_CHANNEL_IDS (example_env\<lparr>WATCH_VOICE_CHANNEL_IDS := {}\<rparr>) = {} \<and>
   on_member_update (example_env\<lparr>WATCH_TEXT_CHANNEL_IDS := []\<rparr>) alice_before alice [] =
     (Inr (), []) \<and>
   on_voice_state_update (example_env\<lparr>WATCH_VOICE_CHANNEL_IDS := {}\<rparr>) alice
     \<lparr>vs_channel = None\<rparr> \<lparr>vs_channel = Some voice_lounge\<rparr> [] = (Inr (), [])"
  using empty_watch_set_disables [where w = "example_env\<lparr>WATCH_TEXT_CHANNEL_IDS := []\<rparr>"
      and before = alice_before and after = alice and t = "[]"]
    empty_watch_set_disables [where w = "example_env\<lparr>WATCH_VOICE_CHANNEL_IDS := {}\<rparr>"
      and m = alice and vb = "\<lparr>vs_channel = None\<rparr>"
      and va = "\<lparr>vs_channel = Some voice_lounge\<rparr>" and t = "[]"]
  by simp

subsection \<open>The relay dispatcher\<close>

lemma fetches_relay_send: "fetches (snd (relay_send w ch text t)) = fetches t"
  by (simp add: relay_send_def fetches_append split: sum.splits)

text \<open>
  C4, as stated, fails: with the relay channel in the cache, a text channel, and a send
  that raises a server error, the exception leaves \<open>relay\<close>.
\<close>

theorem relay_send_failure_escapes:
  "fst (relay failing_send_env ''hello'' []) = Inl HTTPException"
  by (simp add: relay_def relay_resolve_def relay_send_def failing_send_env_def
      example_env_def relay_channel_def)

text \<open>
  C4, amended. An exception leaves \<open>relay\<close> exactly when the destination was resolved to
  a text channel and the send raised an exception other than permission-denied. A failed
  fetch is logged as an error and swallowed, a destination of the wrong type is logged as
  an error with nothing sent, and a permission-denied answer to the send is logged as a
  warning and swallowed.
\<close>

theorem relay_exceptions:
  "(fst (relay w msg t) = Inl e \<longleftrightarrow>
      (\<exists>ch t'. relay_resolve w (t @ [RelayCall msg]) = (Some ch, t') \<and>
         ch_kind ch = TextChannel \<and> channel_send w t' ch msg = Inl e \<and> e \<noteq> Forbidden)) \<and>
   (client_get_channel w (RELAY_CHANNEL_ID w) = None \<and>
    client_fetch_channel w (t @ [RelayCall msg]) (RELAY_CHANNEL_ID w) = Inl e' \<longrightarrow>
      relay w msg t = (Inr (), t @ [RelayCall msg, FetchChannel (RELAY_CHANNEL_ID w),
        Log ERROR ''Relay channel not found (id=%s)'' (RELAY_CHANNEL_ID w)])) \<and>
   (relay_resolve w (t @ [RelayCall msg]) = (Some ch, t') \<and> ch_kind ch \<noteq> TextChannel \<longrightarrow>
      relay w msg t =
        (Inr (), t' @ [Log ERROR ''Relay channel wrong type (id=%s)'' (RELAY_CHANNEL_ID w)])) \<and>
   (relay_resolve w (t @ [RelayCall msg]) = (Some ch, t') \<and> ch_kind ch = TextChannel \<and>
    channel_send w t' ch msg = Inl Forbidden \<longrightarrow>
      relay w msg t =
        (Inr (), t' @ [Send (ch_id ch) msg,
           Log WARNING ''No permission to send in relay channel %s'' (ch_id ch)]))"
  by (auto simp add: relay_def relay_resolve_def relay_send_def split: option.splits sum.splits)

theorem relay_exceptions_witness:
  "relay_resolve forbidden_send_env [RelayCall ''hi''] = (Some relay_channel, [RelayCall ''hi'']) \<and>
   ch_kind relay_channel = TextChannel \<and>
   channel_send forbidden_send_env [RelayCall ''hi''] relay_channel ''hi'' = Inl Forbidden \<and>
   relay forbidden_send_env ''hi'' [] =
     (Inr (), [RelayCall ''hi'', Send 7 ''hi'',
        Log WARNING ''No permission to send in relay channel %s'' 7]) \<and>
   client_get_channel unreachable_env (RELAY_CHANNEL_ID unreachable_env) = None \<and>
   client_fetch_channel unreachable_env [RelayCall ''hi''] (RELAY_CHANNEL_ID unreachable_env) =
     Inl NotFound \<and>
   relay unreachable_env ''hi'' [] =
     (Inr (), [RelayCall ''hi'', FetchChannel 7,
        Log ERROR ''Relay channel not found (id=%s)'' 7]) \<and>
   relay_resolve wrong_type_env [RelayCall ''hi''] = (Some voice_lounge, [RelayCall ''hi'']) \<and>
   ch_kind voice_lounge \<noteq> TextChannel \<and>
   relay wrong_type_env ''hi'' [] =
     (Inr (), [RelayCall ''hi'', Log ERROR ''Relay channel wrong type (id=%s)'' 7]) \<and>
   fst (relay forbidden_send_env ''hi'' []) \<noteq> Inl Forbidden"
  using relay_exceptions [where w = forbidden_send_env and msg = "''hi''" and t = "[]"
      and ch = relay_channel and t' = "[RelayCall ''hi'']" and e = Forbidden]
    relay_exceptions [where w = unreachable_env and msg = "''hi''" and t = "[]"
      and e' = NotFound]
    relay_exceptions [where w = wrong_type_env and msg = "''hi''" and t = "[]"
      and ch = voice_lounge and t' = "[RelayCall ''hi'']"]
  by (simp add: relay_resolve_def forbidden_send_env_def unreachable_env_def wrong_type_env_def
      example_env_def relay_channel_def voice_lounge_def)

text \<open>
  C6, as stated, fails: the fetched channel is a local of the call and nothing stores it,
  so a second \<open>relay\<close> that misses the cache fetches again.
\<close>

theorem relay_fetches_again:
  "snd (relay uncached_env ''second'' (snd (relay uncached_env ''first'' []))) =
     [RelayCall ''first'', FetchChannel 7, Send 7 ''first'',
      RelayCall ''second'', FetchChannel 7, Send 7 ''second'']"
  by (simp add: relay_def relay_resolve_def relay_send_def uncached_env_def example_env_def
      relay_channel_def)

text \<open>
  C6, amended. When a relay call finds the output channel absent from the cache, it makes
  exactly one remote fetch, whose result serves that call only: a later call that misses
  the cache fetches again. If the fetch fails, the call logs an error and returns, its
  trace ending there: no send, no second attempt.
\<close>

theorem relay_cache_miss:
  assumes "client_get_channel w (RELAY_CHANNEL_ID w) = None"
  shows "fetches (snd (relay w msg t)) = fetches t @ [FetchChannel (RELAY_CHANNEL_ID w)] \<and>
    (client_fetch_channel w (t @ [RelayCall msg]) (RELAY_CHANNEL_ID w) = Inl e \<longrightarrow>
      relay w msg t = (Inr (), t @ [RelayCall msg, FetchChannel (RELAY_CHANNEL_ID w),
        Log ERROR ''Relay channel not found (id=%s)'' (RELAY_CHANNEL_ID w)])) \<and>
    fetches (snd (relay w msg' (snd (relay w msg t)))) =
      fetches t @ [FetchChannel (RELAY_CHANNEL_ID w), FetchChannel (RELAY_CHANNEL_ID w)]"
proof -
  have one: "fetches (snd (relay w s u)) = fetches u @ [FetchChannel (RELAY_CHANNEL_ID w)]"
    for s u
    using assms
    by (simp add: relay_def relay_resolve_def fetches_relay_send fetches_append
        split: sum.splits)
  show ?thesis
    using assms by (simp add: one) (simp add: relay_def relay_resolve_def)
qed

theorem relay_cache_miss_witness:
  "client_get_channel unreachable_env (RELAY_CHANNEL_ID unreachable_env) = None \<and>
   client_fetch_channel unreachable_env ([] @ [RelayCall ''hi''])
     (RELAY_CHANNEL_ID unreachable_env) = Inl NotFound \<and>
   fetches (snd (relay unreachable_env ''hi'' [])) = [FetchChannel 7] \<and>
   sends (snd (relay unreachable_env ''hi'' [])) = [] \<and>
   relay unreachable_env ''hi'' [] =
     (Inr (), [RelayCall ''hi'', FetchChannel 7,
        Log ERROR ''Relay channel not found (id=%s)'' 7]) \<and>
   fetches (snd (relay unreachable_env ''again'' (snd (relay unreachable_env ''hi'' [])))) =
     [FetchChannel 7, FetchChannel 7]"
proof -
  have h: "client_get_channel unreachable_env (RELAY_CHANNEL_ID unreachable_env) = None"
    by (simp add: unreachable_env_def)
  show ?thesis
    using h relay_cache_miss [OF h, where msg = "''hi''" and t = "[]" and e = NotFound
        and msg' = "''again''"]
    by (simp add: relay_def relay_resolve_def unreachable_env_def example_env_def)
qed

subsection \<open>The channel-access detector\<close>

lemma member_update_loop_append:
  "member_update_loop w before after (xs @ ys) t =
     (case member_update_loop w before after xs t of
        (Inl e, t') \<Rightarrow> (Inl e, t')
      | (Inr u, t') \<Rightarrow> member_update_loop w before after ys t')"
  by (induction xs arbitrary: t) (auto split: prod.splits sum.splits)

text \<open>
  The detector as a whole: the loop makes at most one relay call for each watched channel
  that qualifies, and exactly one for each when no send raises out of it.
\<close>

lemma member_update_body_calls:
  "\<exists>rs. relay_calls (snd (member_update_body w before after c t)) = relay_calls t @ rs \<and>
     length rs = (if gains_access before after c then 1 else 0)"
  by (auto simp add: member_update_body_def gains_access_def relay_calls_relay
      split: option.splits sum.splits)

lemma member_update_body_quiet:
  "\<not> gains_access before after c \<Longrightarrow> member_update_body w before after c t = (Inr (), t)"
  by (auto simp add: member_update_body_def gains_access_def split: option.splits sum.splits)

lemma member_update_loop_count:
  "\<exists>rs. relay_calls (snd (member_update_loop w before after cs t)) = relay_calls t @ rs \<and>
     length rs \<le> length (filter (gains_access before after) cs) \<and>
     (fst (member_update_loop w before after cs t) = Inr () \<longrightarrow>
        length rs = length (filter (gains_access before after) cs))"
proof (induction cs arbitrary: t)
  case Nil
  then show ?case by simp
next
  case (Cons c cs)
  obtain r t1 where b: "member_update_body w before after c t = (r, t1)"
    by (cases "member_update_body w before after c t")
  obtain r1 where t1: "relay_calls t1 = relay_calls t @ r1"
    "length r1 = (if gains_access before after c then 1 else 0)"
    using member_update_body_calls [of w before after c t] b by auto
  show ?case
  proof (cases r)
    case (Inl e)
    then have "gains_access before after c"
      using b member_update_body_quiet [of before after c w t] by auto
    then show ?thesis
      using b Inl t1 by simp
  next
    case (Inr u)
    obtain rs where rs: "relay_calls (snd (member_update_loop w before after cs t1)) =
        relay_calls t1 @ rs" "length rs \<le> length (filter (gains_access before after) cs)"
      "fst (member_update_loop w before after cs t1) = Inr () \<longrightarrow>
        length rs = length (filter (gains_access before after) cs)"
      using Cons.IH [of t1] by blast
    show ?thesis
      using b Inr t1 rs by simp
  qed
qed

text \<open>
  C2, as stated, fails: with two watched text channels that the member both gains, and a
  send that raises a server error, the exception of the first relay leaves the loop, and
  the second channel, whose pair is (false, true), gets no notification.
\<close>

theorem gained_access_not_reached:
  "WATCH_TEXT_CHANNEL_IDS two_channel_env = [42, 43] \<and>
   guild_is_watched two_channel_env (m_guild alice) [] = (Inr True, []) \<and>
   g_get_channel (m_guild alice) 43 = Some lobby \<and>
   ch_kind lobby = TextChannel \<and>
   permissions_for_view_channel lobby alice_before = Inr False \<and>
   permissions_for_view_channel lobby alice = Inr True \<and>
   on_member_update two_channel_env alice_before alice [] =
     (Inl HTTPException,
      [RelayCall ''alice gained access to : #general in G at 2024-03-09 12:05:00 UTC'',
       Send 7 ''alice gained access to : #general in G at 2024-03-09 12:05:00 UTC''])"
proof -
  have gate: "guild_is_watched two_channel_env (m_guild alice) [] = (Inr True, [])"
    by (simp add: guild_is_watched_def two_channel_env_def failing_send_env_def example_env_def
        alice_def guild_G_def)
  have line: "gained_text alice general noon =
      ''alice gained access to : #general in G at 2024-03-09 12:05:00 UTC''"
    by (simp add: gained_text_def now_utc_str_def directive_def zero_pad2_def zero_pad4_def
        digit_char_def alice_def guild_G_def general_def noon_def)
  have first: "member_update_body two_channel_env alice_before alice 42 [] =
      relay two_channel_env (gained_text alice general noon) []"
    by (simp add: member_update_body_def permissions_for_view_channel_def alice_def
        alice_before_def guild_G_def general_def two_channel_env_def failing_send_env_def
        example_env_def)
  have raise: "relay two_channel_env s [] = (Inl HTTPException, [RelayCall s, Send 7 s])" for s
    by (simp add: relay_def relay_resolve_def relay_send_def two_channel_env_def
        failing_send_env_def example_env_def relay_channel_def)
  have list: "WATCH_TEXT_CHANNEL_IDS two_channel_env = [42, 43]"
    by (simp add: two_channel_env_def)
  have run: "on_member_update two_channel_env alice_before alice [] =
     (Inl HTTPException,
      [RelayCall ''alice gained access to : #general in G at 2024-03-09 12:05:00 UTC'',
       Send 7 ''alice gained access to : #general in G at 2024-03-09 12:05:00 UTC''])"
    using gate by (simp add: on_member_update_def list first raise line)
  have lobby: "g_get_channel (m_guild alice) 43 = Some lobby" "ch_kind lobby = TextChannel"
    "permissions_for_view_channel lobby alice_before = Inr False"
    "permissions_for_view_channel lobby alice = Inr True"
    by (simp_all add: permissions_for_view_channel_def alice_def alice_before_def guild_G_def
        lobby_def)
  show ?thesis
    using list gate lobby run by simp
qed

text \<open>
  C2, amended. Take a member-update event that passes the handler's two tests (a non-empty
  set of watched text channels, and \<open>guild_is_watched\<close>) and a watched channel id that
  resolves to a text, forum or category channel whose view permission computes to
  \<open>before_can\<close> for the before-member and \<open>after_can\<close> for the after-member. For the
  pairs (false, false), (true, true) and (true, false) the handler gives no notification
  for that channel: its run is the run over the watch list without the channel. For the
  pair (false, true) the handler relays the gained-access line when the loop reaches the
  channel, that is when no send for an earlier watched channel raised an exception out of
  \<open>relay\<close>, and then goes on with the rest of the list. The handler makes at most one
  relay call for each qualifying watched channel, and exactly one for each when it
  returns normally.
\<close>

theorem gained_access_edge:
  assumes "WATCH_TEXT_CHANNEL_IDS w = xs @ c # ys"
    and "guild_is_watched w (m_guild after) t = (Inr True, t0)"
    and "g_get_channel (m_guild after) c = Some ch"
    and "ch_kind ch = TextChannel \<or> ch_kind ch = ForumChannel \<or> ch_kind ch = CategoryChannel"
    and "permissions_for_view_channel ch before = Inr before_can"
    and "permissions_for_view_channel ch after = Inr after_can"
  shows "(\<not> (\<not> before_can \<and> after_can) \<longrightarrow>
            on_member_update w before after t =
              member_update_loop w before after (xs @ ys) t0) \<and>
         (\<not> before_can \<and> after_can \<and> member_update_loop w before after xs t0 = (Inr (), t1) \<longrightarrow>
            on_member_update w before after t =
              (case relay w (gained_text after ch (clock_utc w t1)) t1 of
                 (Inl e, t') \<Rightarrow> (Inl e, t')
               | (Inr u, t') \<Rightarrow> member_update_loop w before after ys t')) \<and>
         length (new_relay_calls t (snd (on_member_update w before after t))) \<le>
           length (filter (gains_access before after) (WATCH_TEXT_CHANNEL_IDS w)) \<and>
         (fst (on_member_update w before after t) = Inr () \<longrightarrow>
            length (new_relay_calls t (snd (on_member_update w before after t))) =
              length (filter (gains_access before after) (WATCH_TEXT_CHANNEL_IDS w))) \<and>
         (gains_access before after c \<longleftrightarrow> \<not> before_can \<and> after_can) \<and>
         member_update_body w before after c u =
           (if \<not> before_can \<and> after_can
            then relay w (gained_text after ch (clock_utc w u)) u else (Inr (), u)) \<and>
         new_relay_calls u (snd (member_update_body w before after c u)) =
           (if \<not> before_can \<and> after_can then [gained_text after ch (clock_utc w u)] else [])"
proof -
  have handler: "on_member_update w before after t =
      member_update_loop w before after (xs @ c # ys) t0"
    using assms(1,2) by (simp add: on_member_update_def)
  have body: "member_update_body w before after c v =
      (if \<not> before_can \<and> after_can
       then relay w (gained_text after ch (clock_utc w v)) v else (Inr (), v))" for v
    using assms(3-6) by (simp add: member_update_body_def)
  have calls: "new_relay_calls u (snd (member_update_body w before after c u)) =
      (if \<not> before_can \<and> after_can then [gained_text after ch (clock_utc w u)] else [])"
    by (simp add: body new_relay_calls_def relay_calls_relay)
  have rule: "gains_access before after c \<longleftrightarrow> \<not> before_can \<and> after_can"
    using assms(3-6) by (auto simp add: gains_access_def)
  have quiet: "on_member_update w before after t =
      member_update_loop w before after (xs @ ys) t0" if "\<not> (\<not> before_can \<and> after_can)"
  proof -
    have "member_update_body w before after c v = (Inr (), v)" for v
      using that body [of v] by (cases before_can; cases after_can) simp_all
    then have "member_update_loop w before after (c # ys) v =
        member_update_loop w before after ys v" for v
      by simp
    then show ?thesis
      unfolding handler
      by (simp add: member_update_loop_append [of _ _ _ xs] split: prod.splits sum.splits)
  qed
  have loud: "on_member_update w before after t =
      (case relay w (gained_text after ch (clock_utc w t1)) t1 of
         (Inl e, t') \<Rightarrow> (Inl e, t')
       | (Inr u, t') \<Rightarrow> member_update_loop w before after ys t')"
    if "\<not> before_can \<and> after_can" "member_update_loop w before after xs t0 = (Inr (), t1)"
    unfolding handler
    using that by (simp add: member_update_loop_append [of _ _ _ xs] body)
  have same: "relay_calls t0 = relay_calls t"
    using assms(2) guild_is_watched_calls [of w "m_guild after" t] by simp
  obtain rs where rs:
    "relay_calls (snd (member_update_loop w before after (xs @ c # ys) t0)) = relay_calls t0 @ rs"
    "length rs \<le> length (filter (gains_access before after) (xs @ c # ys))"
    "fst (member_update_loop w before after (xs @ c # ys) t0) = Inr () \<longrightarrow>
       length rs = length (filter (gains_access before after) (xs @ c # ys))"
    using member_update_loop_count [of w before after "xs @ c # ys" t0] by blast
  have new: "new_relay_calls t (snd (on_member_update w before after t)) = rs"
    unfolding handler new_relay_calls_def rs(1) same by simp
  have most: "length (new_relay_calls t (snd (on_member_update w before after t))) \<le>
      length (filter (gains_access before after) (WATCH_TEXT_CHANNEL_IDS w))"
    unfolding new assms(1) using rs(2) .
  have all: "length (new_relay_calls t (snd (on_member_update w before after t))) =
      length (filter (gains_access before after) (WATCH_TEXT_CHANNEL_IDS w))"
    if "fst (on_member_update w before after t) = Inr ()"
    unfolding new assms(1) using rs(3) that handler by simp
  show ?thesis
    using quiet loud most all rule body [of u] calls by blast
qed

theorem gained_access_edge_witness:
  "WATCH_TEXT_CHANNEL_IDS example_env = [41] @ 42 # [] \<and>
   guild_is_watched example_env (m_guild alice) [] = (Inr True, []) \<and>
   g_get_channel (m_guild alice) 42 = Some general \<and>
   ch_kind general = TextChannel \<and>
   permissions_for_view_channel general alice_before = Inr False \<and>
   permissions_for_view_channel general alice = Inr True \<and>
   member_update_loop example_env alice_before alice [41] [] = (Inr (), []) \<and>
   on_member_update example_env alice_before alice [] =
     (Inr (), [RelayCall ''alice gained access to : #general in G at 2024-03-09 12:05:00 UTC'',
        Send 7 ''alice gained access to : #general in G at 2024-03-09 12:05:00 UTC'']) \<and>
   guild_is_watched example_env (m_guild alice_before) [] = (Inr True, []) \<and>
   on_member_update example_env alice alice_before [] = (Inr (), [])"
proof -
  have h0: "WATCH_TEXT_CHANNEL_IDS example_env = [41] @ 42 # []"
    by (simp add: example_env_def)
  have g: "guild_is_watched example_env (m_guild alice) [] = (Inr True, [])"
    "guild_is_watched example_env (m_guild alice_before) [] = (Inr True, [])"
    by (simp_all add: guild_is_watched_def example_env_def alice_def alice_before_def
        guild_G_def)
  have h1: "g_get_channel (m_guild alice) 42 = Some general"
    "g_get_channel (m_guild alice_before) 42 = Some general"
    by (simp_all add: alice_def alice_before_def guild_G_def)
  have h2: "ch_kind general = TextChannel \<or> ch_kind general = ForumChannel \<or>
      ch_kind general = CategoryChannel"
    by (simp add: general_def)
  have h3: "permissions_for_view_channel general alice_before = Inr False"
    by (simp add: permissions_for_view_channel_def alice_before_def general_def)
  have h4: "permissions_for_view_channel general alice = Inr True"
    by (simp add: permissions_for_view_channel_def alice_def general_def)
  have skip: "member_update_loop example_env alice_before alice [41] [] = (Inr (), [])"
    "member_update_loop example_env alice alice_before [41] [] = (Inr (), [])"
    by (simp_all add: member_update_body_def permissions_for_view_channel_def alice_def
        alice_before_def guild_G_def archive_def)
  have line: "gained_text alice general noon =
      ''alice gained access to : #general in G at 2024-03-09 12:05:00 UTC''"
    by (simp add: gained_text_def now_utc_str_def directive_def zero_pad2_def zero_pad4_def
        digit_char_def alice_def guild_G_def general_def noon_def)
  have clock: "clock_utc example_env [] = noon"
    by (simp add: example_env_def)
  have send: "relay example_env s [] = (Inr (), [RelayCall s, Send 7 s])" for s
    by (simp add: relay_def relay_resolve_def relay_send_def example_env_def relay_channel_def)
  have gain: "on_member_update example_env alice_before alice [] =
      (case relay example_env (gained_text alice general (clock_utc example_env [])) [] of
         (Inl e, t') \<Rightarrow> (Inl e, t')
       | (Inr u, t') \<Rightarrow> member_update_loop example_env alice_before alice [] t')"
    using gained_access_edge [OF h0 g(1) h1(1) h2 h3 h4, where ?t1.0 = "[]",
        THEN conjunct2, THEN conjunct1] skip(1)
    by simp
  have lose: "on_member_update example_env alice alice_before [] =
      member_update_loop example_env alice alice_before ([41] @ []) []"
    using gained_access_edge [OF h0 g(2) h1(2) h2 h4 h3, THEN conjunct1]
    by simp
  show ?thesis
    using h0 g h1(1) h3 h4 skip
    by (simp add: gain lose clock line send) (simp add: general_def)
qed

text \<open>
  C7. When the view permission of a watched channel cannot be computed, for the
  before-member or for the after-member, the body of the loop does nothing for that
  channel and the loop goes on: a run over a watch list with that channel in it is the run
  over the list without it, so the other channels are evaluated as if it were not there.
\<close>

theorem permission_failure_skips_channel:
  assumes "g_get_channel (m_guild after) c = Some ch"
    and "permissions_for_view_channel ch before = Inl e \<or>
         permissions_for_view_channel ch after = Inl e"
  shows "member_update_body w before after c t = (Inr (), t) \<and>
         member_update_loop w before after (xs @ c # ys) t =
           member_update_loop w before after (xs @ ys) t"
proof -
  have body: "member_update_body w before after c u = (Inr (), u)" for u
    using assms by (auto simp add: member_update_body_def split: sum.splits)
  have step: "member_update_loop w before after (c # ys) u =
      member_update_loop w before after ys u" for u
    by (simp add: body)
  show ?thesis
    by (simp add: body step member_update_loop_append [of _ _ _ xs]
        split: prod.splits sum.splits)
qed

theorem permission_failure_skips_channel_witness:
  "g_get_channel (m_guild alice) 41 = Some archive \<and>
   permissions_for_view_channel archive alice_before = Inl OtherException \<and>
   member_update_body example_env alice_before alice 41 [] = (Inr (), []) \<and>
   member_update_loop example_env alice_before alice [41, 42] [] =
     member_update_loop example_env alice_before alice [42] [] \<and>
   on_member_update example_env alice_before alice [] =
     (Inr (), [RelayCall ''alice gained access to : #general in G at 2024-03-09 12:05:00 UTC'',
        Send 7 ''alice gained access to : #general in G at 2024-03-09 12:05:00 UTC''])"
proof -
  have h1: "g_get_channel (m_guild alice) 41 = Some archive"
    by (simp add: alice_def guild_G_def)
  have h2: "permissions_for_view_channel archive alice_before = Inl OtherException"
    by (simp add: permissions_for_view_channel_def alice_before_def archive_def)
  have h3: "permissions_for_view_channel archive alice_before = Inl OtherException \<or>
      permissions_for_view_channel archive alice = Inl OtherException"
    using h2 by simp
  have skip: "member_update_body example_env alice_before alice 41 [] = (Inr (), []) \<and>
    member_update_loop example_env alice_before alice ([] @ 41 # [42]) [] =
    member_update_loop example_env alice_before alice ([] @ [42]) []"
    using permission_failure_skips_channel [OF h1 h3, where w = example_env and t = "[]"
        and xs = "[]" and ys = "[42]"] .
  have run: "member_update_loop example_env alice_before alice [42] [] =
     (Inr (), [RelayCall ''alice gained access to : #general in G at 2024-03-09 12:05:00 UTC'',
        Send 7 ''alice gained access to : #general in G at 2024-03-09 12:05:00 UTC''])"
    by (simp add: member_update_body_def permissions_for_view_channel_def gained_text_def
        now_utc_str_def directive_def zero_pad2_def zero_pad4_def digit_char_def
        relay_def relay_resolve_def relay_send_def
        alice_def alice_before_def guild_G_def general_def example_env_def relay_channel_def
        noon_def)
  have gate: "guild_is_watched example_env guild_G [] = (Inr True, [])"
    by (simp add: guild_is_watched_def example_env_def guild_G_def)
  have "on_member_update example_env alice_before alice [] =
      member_update_loop example_env alice_before alice [41, 42] []"
    using gate by (simp add: on_member_update_def alice_def example_env_def)
  then show ?thesis
    using h1 h2 skip run by simp
qed

subsection \<open>The timestamp\<close>

lemma guild_is_watched_keeps_calls:
  "guild_is_watched w g t = (r, t') \<Longrightarrow> relay_calls t' = relay_calls t"
  using guild_is_watched_calls [of w g t] by simp

lemma new_relay_calls_relay:
  "relay_calls t' = relay_calls t \<Longrightarrow> new_relay_calls t (snd (relay w msg t')) = [msg]"
  by (simp add: new_relay_calls_def relay_calls_relay)

lemma new_relay_calls_same: "relay_calls t' = relay_calls t \<Longrightarrow> new_relay_calls t t' = []"
  by (simp add: new_relay_calls_def)

lemma digit_char_is_digit: "is_digit (digit_char n)"
  unfolding is_digit_def digit_char_def by (rule nth_mem) simp

lemma digit_value_digit_char: "digit_value (digit_char n) = n mod 10"
proof -
  have "n mod 10 = 0 \<or> n mod 10 = 1 \<or> n mod 10 = 2 \<or> n mod 10 = 3 \<or> n mod 10 = 4 \<or>
    n mod 10 = 5 \<or> n mod 10 = 6 \<or> n mod 10 = 7 \<or> n mod 10 = 8 \<or> n mod 10 = 9"
    by arith
  then show ?thesis
    unfolding digit_value_def digit_char_def
    by (elim disjE) simp_all
qed

lemma now_utc_str_eq:
  "now_utc_str d = zero_pad4 (year d) @ ''-'' @ zero_pad2 (month d) @ ''-'' @ zero_pad2 (day d) @
     '' '' @ zero_pad2 (hour d) @ '':'' @ zero_pad2 (minute d) @ '':'' @ zero_pad2 (second d) @
     '' UTC''"
  by (simp add: now_utc_str_def directive_def)

lemma now_utc_str_format: "matches_format ''YYYY-MM-DD HH:MM:SS UTC'' (now_utc_str d)"
  by (simp add: now_utc_str_eq zero_pad2_def zero_pad4_def digit_char_is_digit)

lemma decimal_zero_pad2: "n < 100 \<Longrightarrow> decimal_value (zero_pad2 n) = n"
  by (simp add: decimal_value_def zero_pad2_def digit_value_digit_char)

lemma four_digits:
  "1000 * (n div 1000) + 100 * (n div 100 mod 10) + 10 * (n div 10 mod 10) + n mod 10 = (n::nat)"
proof -
  have a: "n div 100 = n div 10 div 10" and b: "n div 1000 = n div 10 div 10 div 10"
    by (simp_all add: div_mult2_eq)
  have "n = 10 * (n div 10) + n mod 10" by simp
  moreover have "n div 10 = 10 * (n div 10 div 10) + n div 10 mod 10" by simp
  moreover have "n div 10 div 10 = 10 * (n div 10 div 10 div 10) + n div 10 div 10 mod 10"
    by simp
  ultimately show ?thesis
    unfolding a b by linarith
qed

lemma decimal_zero_pad4: "n < 10000 \<Longrightarrow> decimal_value (zero_pad4 n) = n"
  by (simp add: decimal_value_def zero_pad4_def digit_value_digit_char four_digits)

lemma now_utc_str_fields:
  assumes "valid_datetime d"
  shows "decimal_value (take 4 (now_utc_str d)) = year d \<and>
         decimal_value (take 2 (drop 5 (now_utc_str d))) = month d \<and>
         decimal_value (take 2 (drop 8 (now_utc_str d))) = day d \<and>
         decimal_value (take 2 (drop 11 (now_utc_str d))) = hour d \<and>
         decimal_value (take 2 (drop 14 (now_utc_str d))) = minute d \<and>
         decimal_value (take 2 (drop 17 (now_utc_str d))) = second d \<and>
         drop 19 (now_utc_str d) = '' UTC''"
proof -
  have l: "length (zero_pad4 n) = 4" "length (zero_pad2 n) = 2" for n
    by (simp_all add: zero_pad4_def zero_pad2_def)
  have s: "now_utc_str d = zero_pad4 (year d) @ CHR ''-'' # zero_pad2 (month d) @ CHR ''-'' #
     zero_pad2 (day d) @ CHR '' '' # zero_pad2 (hour d) @ CHR '':'' # zero_pad2 (minute d) @
     CHR '':'' # zero_pad2 (second d) @ '' UTC''"
    by (simp add: now_utc_str_eq)
  show ?thesis
    using assms unfolding s
    by (simp add: l decimal_zero_pad2 decimal_zero_pad4 valid_datetime_def)
qed

subsection \<open>The join detector\<close>

text \<open>
  C9. For a member-join event whose community passes \<open>guild_is_watched\<close>, the handler
  makes exactly one relay call; its text is the member's name, \<open>joined :\<close>, the
  community's name, \<open>at\<close>, and the clock's reading, which has the shape
  \<open>YYYY-MM-DD HH:MM:SS UTC\<close> and whose digit groups are the year, month, day, hour,
  minute and second of the clock.
\<close>

theorem member_join_message:
  assumes "guild_is_watched w (m_guild m) t = (Inr True, t')"
    and "valid_datetime (clock_utc w t')"
  shows "new_relay_calls t (snd (on_member_join w m t)) =
           [m_name m @ '' joined : '' @ g_name (m_guild m) @ '' at '' @
            now_utc_str (clock_utc w t')] \<and>
         matches_format ''YYYY-MM-DD HH:MM:SS UTC'' (now_utc_str (clock_utc w t')) \<and>
         decimal_value (take 4 (now_utc_str (clock_utc w t'))) = year (clock_utc w t') \<and>
         decimal_value (take 2 (drop 5 (now_utc_str (clock_utc w t')))) = month (clock_utc w t') \<and>
         decimal_value (take 2 (drop 8 (now_utc_str (clock_utc w t')))) = day (clock_utc w t') \<and>
         decimal_value (take 2 (drop 11 (now_utc_str (clock_utc w t')))) = hour (clock_utc w t') \<and>
         decimal_value (take 2 (drop 14 (now_utc_str (clock_utc w t')))) = minute (clock_utc w t') \<and>
         decimal_value (take 2 (drop 17 (now_utc_str (clock_utc w t')))) = second (clock_utc w t')"
proof -
  have c: "relay_calls t' = relay_calls t"
    using assms(1) by (rule guild_is_watched_keeps_calls)
  have "on_member_join w m t = relay w (join_text m (clock_utc w t')) t'"
    using assms(1) by (simp add: on_member_join_def)
  then have "new_relay_calls t (snd (on_member_join w m t)) = [join_text m (clock_utc w t')]"
    using c by (simp add: new_relay_calls_relay)
  then show ?thesis
    using now_utc_str_fields [OF assms(2)] now_utc_str_format [of "clock_utc w t'"]
    by (simp add: join_text_def)
qed

theorem member_join_message_witness:
  "guild_is_watched example_env (m_guild alice) [] = (Inr True, []) \<and>
   valid_datetime (clock_utc example_env []) \<and>
   new_relay_calls [] (snd (on_member_join example_env alice [])) =
     [''alice joined : G at 2024-03-09 12:05:00 UTC''] \<and>
   on_member_join example_env alice [] =
     (Inr (), [RelayCall ''alice joined : G at 2024-03-09 12:05:00 UTC'',
        Send 7 ''alice joined : G at 2024-03-09 12:05:00 UTC''])"
proof -
  have h1: "guild_is_watched example_env (m_guild alice) [] = (Inr True, [])"
    by (simp add: guild_is_watched_def example_env_def alice_def guild_G_def)
  have h2: "valid_datetime (clock_utc example_env [])"
    by (simp add: valid_datetime_def example_env_def noon_def)
  have line: "join_text alice noon = ''alice joined : G at 2024-03-09 12:05:00 UTC''"
    by (simp add: join_text_def now_utc_str_def directive_def zero_pad2_def zero_pad4_def
        digit_char_def alice_def guild_G_def noon_def)
  have clock: "clock_utc example_env [] = noon"
    by (simp add: example_env_def)
  have one: "new_relay_calls [] (snd (on_member_join example_env alice [])) =
      [''alice joined : G at 2024-03-09 12:05:00 UTC'']"
    using member_join_message [OF h1 h2, THEN conjunct1] line
    by (simp add: clock join_text_def)
  have run: "on_member_join example_env alice [] =
     (Inr (), [RelayCall ''alice joined : G at 2024-03-09 12:05:00 UTC'',
        Send 7 ''alice joined : G at 2024-03-09 12:05:00 UTC''])"
    using h1
    by (simp add: on_member_join_def line relay_def relay_resolve_def relay_send_def
        example_env_def relay_channel_def)
  show ?thesis
    using h1 h2 one run by simp
qed

subsection \<open>The voice detector\<close>

lemma voice_texts_distinct:
  "joined_voice_text m x d \<noteq> left_voice_text m y d'"
  "joined_voice_text m x d \<noteq> moved_voice_text m y z d'"
  "left_voice_text m x d \<noteq> moved_voice_text m y z d'"
  by (simp_all add: joined_voice_text_def left_voice_text_def moved_voice_text_def)

text \<open>
  C3. For a voice-state update that passes the two gates (a non-empty voice watch set and
  \<open>guild_is_watched\<close>), the handler does what the classification by watch-set membership
  says: no outcome when the two channels are equal; otherwise a join when only the after
  channel is watched, a leave when only the before channel is, a move when both are, and
  no outcome when neither is. It makes the one relay call of that outcome and no other, so
  at most one of the three lines is reported.
\<close>

theorem voice_classification:
  assumes "WATCH_VOICE_CHANNEL_IDS w \<noteq> {}"
    and "guild_is_watched w (m_guild m) t = (Inr True, t')"
  shows "on_voice_state_update w m before after t =
           (case voice_message
                   (spec_voice_outcome (channel_ne (vs_channel after) (vs_channel before))
                      (in_watch w (vs_channel before)) (in_watch w (vs_channel after)))
                   m (vs_channel before) (vs_channel after) (clock_utc w t') of
              None \<Rightarrow> (Inr (), t')
            | Some msg \<Rightarrow> relay w msg t') \<and>
         new_relay_calls t (snd (on_voice_state_update w m before after t)) =
           (case voice_message
                   (spec_voice_outcome (channel_ne (vs_channel after) (vs_channel before))
                      (in_watch w (vs_channel before)) (in_watch w (vs_channel after)))
                   m (vs_channel before) (vs_channel after) (clock_utc w t') of
              None \<Rightarrow> []
            | Some msg \<Rightarrow> [msg]) \<and>
         length (new_relay_calls t (snd (on_voice_state_update w m before after t))) \<le> 1 \<and>
         (\<not> channel_ne (vs_channel after) (vs_channel before) \<longrightarrow>
            on_voice_state_update w m before after t = (Inr (), t'))"
proof -
  have c: "relay_calls t' = relay_calls t"
    using assms(2) by (rule guild_is_watched_keeps_calls)
  have h: "on_voice_state_update w m before after t =
           (case voice_message
                   (spec_voice_outcome (channel_ne (vs_channel after) (vs_channel before))
                      (in_watch w (vs_channel before)) (in_watch w (vs_channel after)))
                   m (vs_channel before) (vs_channel after) (clock_utc w t') of
              None \<Rightarrow> (Inr (), t')
            | Some msg \<Rightarrow> relay w msg t')"
    using assms
    by (auto simp add: on_voice_state_update_def spec_voice_outcome_def voice_message_def
        in_watch_def vch_name_def name_of_def split: option.splits)
  have q: "\<not> channel_ne (vs_channel after) (vs_channel before) \<Longrightarrow>
      on_voice_state_update w m before after t = (Inr (), t')"
    using assms by (simp add: on_voice_state_update_def)
  have n: "new_relay_calls t (snd (on_voice_state_update w m before after t)) =
           (case voice_message
                   (spec_voice_outcome (channel_ne (vs_channel after) (vs_channel before))
                      (in_watch w (vs_channel before)) (in_watch w (vs_channel after)))
                   m (vs_channel before) (vs_channel after) (clock_utc w t') of
              None \<Rightarrow> []
            | Some msg \<Rightarrow> [msg])"
    unfolding h using c
    by (simp add: new_relay_calls_relay new_relay_calls_same split: option.splits)
  have l: "length (new_relay_calls t (snd (on_voice_state_update w m before after t))) \<le> 1"
    unfolding n by (simp split: option.splits)
  show ?thesis
    using h n l q by blast
qed

theorem voice_classification_witness:
  "WATCH_VOICE_CHANNEL_IDS example_env \<noteq> {} \<and>
   guild_is_watched example_env (m_guild alice) [] = (Inr True, []) \<and>
   channel_ne (Some voice_lounge) (Some afk) \<and>
   \<not> channel_ne (Some voice_lounge) (Some voice_lounge) \<and>
   new_relay_calls [] (snd (on_voice_state_update example_env alice
       \<lparr>vs_channel = Some afk\<rparr> \<lparr>vs_channel = Some voice_lounge\<rparr> [])) =
     [''alice joined voice : #voice-lounge in G at 2024-03-09 12:05:00 UTC''] \<and>
   on_voice_state_update example_env alice
       \<lparr>vs_channel = Some voice_lounge\<rparr> \<lparr>vs_channel = Some voice_lounge\<rparr> [] = (Inr (), [])"
proof -
  have h1: "WATCH_VOICE_CHANNEL_IDS example_env \<noteq> {}"
    by (simp add: example_env_def)
  have h2: "guild_is_watched example_env (m_guild alice) [] = (Inr True, [])"
    by (simp add: guild_is_watched_def example_env_def alice_def guild_G_def)
  have ne: "channel_ne (Some voice_lounge) (Some afk)"
    "\<not> channel_ne (Some voice_lounge) (Some voice_lounge)"
    by (simp_all add: channel_ne_def voice_lounge_def afk_def)
  have line: "voice_message
      (spec_voice_outcome (channel_ne (Some voice_lounge) (Some afk))
         (in_watch example_env (Some afk)) (in_watch example_env (Some voice_lounge)))
      alice (Some afk) (Some voice_lounge) (clock_utc example_env []) =
      Some ''alice joined voice : #voice-lounge in G at 2024-03-09 12:05:00 UTC''"
    by (simp add: voice_message_def spec_voice_outcome_def channel_ne_def in_watch_def
        name_of_def joined_voice_text_def now_utc_str_def directive_def zero_pad2_def
        zero_pad4_def digit_char_def alice_def guild_G_def voice_lounge_def afk_def
        example_env_def noon_def)
  have joined: "new_relay_calls [] (snd (on_voice_state_update example_env alice
       \<lparr>vs_channel = Some afk\<rparr> \<lparr>vs_channel = Some voice_lounge\<rparr> [])) =
     [''alice joined voice : #voice-lounge in G at 2024-03-09 12:05:00 UTC'']"
    using voice_classification [OF h1 h2, where before = "\<lparr>vs_channel = Some afk\<rparr>"
        and after = "\<lparr>vs_channel = Some voice_lounge\<rparr>", THEN conjunct2, THEN conjunct1]
    by (simp add: line)
  have same: "on_voice_state_update example_env alice
       \<lparr>vs_channel = Some voice_lounge\<rparr> \<lparr>vs_channel = Some voice_lounge\<rparr> [] = (Inr (), [])"
    using voice_classification [OF h1 h2,
        where before = "\<lparr>vs_channel = Some voice_lounge\<rparr>"
        and after = "\<lparr>vs_channel = Some voice_lounge\<rparr>",
        THEN conjunct2, THEN conjunct2, THEN conjunct2] ne(2)
    by simp
  show ?thesis
    using h1 h2 ne joined same by simp
qed

text \<open>
  C10. An absent voice location is never in the watch set. For an update that passes the
  gates: when the after channel is absent and the before channel is watched, the handler
  relays the left-voice line; when the before channel is absent and the after channel is
  watched, it relays the joined-voice line; and when either side is absent it relays no
  moved-voice line.
\<close>

theorem absent_voice_location:
  assumes "WATCH_VOICE_CHANNEL_IDS w \<noteq> {}"
    and "guild_is_watched w (m_guild m) t = (Inr True, t')"
  shows "\<not> in_watch w None \<and>
    (vs_channel after = None \<and> vs_channel before = Some b \<and>
     ch_id b \<in> WATCH_VOICE_CHANNEL_IDS w \<longrightarrow>
       on_voice_state_update w m before after t =
         relay w (left_voice_text m (ch_name b) (clock_utc w t')) t') \<and>
    (vs_channel before = None \<and> vs_channel after = Some a \<and>
     ch_id a \<in> WATCH_VOICE_CHANNEL_IDS w \<longrightarrow>
       on_voice_state_update w m before after t =
         relay w (joined_voice_text m (ch_name a) (clock_utc w t')) t') \<and>
    (vs_channel before = None \<or> vs_channel after = None \<longrightarrow>
       (\<forall>x y d. moved_voice_text m x y d \<notin>
          set (new_relay_calls t (snd (on_voice_state_update w m before after t)))))"
proof -
  have c: "relay_calls t' = relay_calls t"
    using assms(2) by (rule guild_is_watched_keeps_calls)
  have 1: "\<not> in_watch w None" by (simp add: in_watch_def)
  have 2: "on_voice_state_update w m before after t =
         relay w (left_voice_text m (ch_name b) (clock_utc w t')) t'"
    if "vs_channel after = None" "vs_channel before = Some b"
      "ch_id b \<in> WATCH_VOICE_CHANNEL_IDS w"
    using assms that
    by (simp add: on_voice_state_update_def in_watch_def channel_ne_def vch_name_def)
  have 3: "on_voice_state_update w m before after t =
         relay w (joined_voice_text m (ch_name a) (clock_utc w t')) t'"
    if "vs_channel before = None" "vs_channel after = Some a"
      "ch_id a \<in> WATCH_VOICE_CHANNEL_IDS w"
    using assms that
    by (simp add: on_voice_state_update_def in_watch_def channel_ne_def vch_name_def)
  have 4: "moved_voice_text m x y d \<notin>
          set (new_relay_calls t (snd (on_voice_state_update w m before after t)))"
    if "vs_channel before = None \<or> vs_channel after = None" for x y d
    using assms that c
    by (auto simp add: on_voice_state_update_def in_watch_def vch_name_def
        new_relay_calls_relay new_relay_calls_same voice_texts_distinct [symmetric]
        split: option.splits)
  show ?thesis
    using 1 2 3 4 by blast
qed

theorem absent_voice_location_witness:
  "WATCH_VOICE_CHANNEL_IDS example_env \<noteq> {} \<and>
   guild_is_watched example_env (m_guild alice) [] = (Inr True, []) \<and>
   ch_id voice_lounge \<in> WATCH_VOICE_CHANNEL_IDS example_env \<and>
   on_voice_state_update example_env alice
       \<lparr>vs_channel = Some voice_lounge\<rparr> \<lparr>vs_channel = None\<rparr> [] =
     (Inr (), [RelayCall ''alice left voice : #voice-lounge in G at 2024-03-09 12:05:00 UTC'',
        Send 7 ''alice left voice : #voice-lounge in G at 2024-03-09 12:05:00 UTC'']) \<and>
   on_voice_state_update example_env alice
       \<lparr>vs_channel = None\<rparr> \<lparr>vs_channel = Some voice_lounge\<rparr> [] =
     (Inr (), [RelayCall ''alice joined voice : #voice-lounge in G at 2024-03-09 12:05:00 UTC'',
        Send 7 ''alice joined voice : #voice-lounge in G at 2024-03-09 12:05:00 UTC''])"
proof -
  have h1: "WATCH_VOICE_CHANNEL_IDS example_env \<noteq> {}"
    by (simp add: example_env_def)
  have h2: "guild_is_watched example_env (m_guild alice) [] = (Inr True, [])"
    by (simp add: guild_is_watched_def example_env_def alice_def guild_G_def)
  have h3: "ch_id voice_lounge \<in> WATCH_VOICE_CHANNEL_IDS example_env"
    by (simp add: example_env_def voice_lounge_def)
  have left_line: "left_voice_text alice (ch_name voice_lounge) noon =
      ''alice left voice : #voice-lounge in G at 2024-03-09 12:05:00 UTC''"
    by (simp add: left_voice_text_def now_utc_str_def directive_def zero_pad2_def
        zero_pad4_def digit_char_def alice_def guild_G_def voice_lounge_def noon_def)
  have joined_line: "joined_voice_text alice (ch_name voice_lounge) noon =
      ''alice joined voice : #voice-lounge in G at 2024-03-09 12:05:00 UTC''"
    by (simp add: joined_voice_text_def now_utc_str_def directive_def zero_pad2_def
        zero_pad4_def digit_char_def alice_def guild_G_def voice_lounge_def noon_def)
  have clock: "clock_utc example_env [] = noon"
    by (simp add: example_env_def)
  have send: "relay example_env s [] = (Inr (), [RelayCall s, Send 7 s])" for s
    by (simp add: relay_def relay_resolve_def relay_send_def example_env_def relay_channel_def)
  have left: "on_voice_state_update example_env alice
       \<lparr>vs_channel = Some voice_lounge\<rparr> \<lparr>vs_channel = None\<rparr> [] =
     relay example_env (left_voice_text alice (ch_name voice_lounge) (clock_utc example_env [])) []"
    using absent_voice_location [OF h1 h2, where before = "\<lparr>vs_channel = Some voice_lounge\<rparr>"
        and after = "\<lparr>vs_channel = None\<rparr>" and b = voice_lounge,
        THEN conjunct2, THEN conjunct1] h3
    by simp
  have joined: "on_voice_state_update example_env alice
       \<lparr>vs_channel = None\<rparr> \<lparr>vs_channel = Some voice_lounge\<rparr> [] =
     relay example_env (joined_voice_text alice (ch_name voice_lounge) (clock_utc example_env [])) []"
    using absent_voice_location [OF h1 h2, where before = "\<lparr>vs_channel = None\<rparr>"
        and after = "\<lparr>vs_channel = Some voice_lounge\<rparr>" and a = voice_lounge,
        THEN conjunct2, THEN conjunct2, THEN conjunct1] h3
    by simp
  show ?thesis
    using h1 h2 h3 by (simp add: left joined clock left_line joined_line send)
qed

end
